theory Spec2Isabelle
  imports Complex_Main
begin

section \<open>Data model of the live test viewer\<close>

text \<open>
  The component \<^verbatim>\<open>LiveTestViewer\<close> (file \<^verbatim>\<open>src/pages/Renault/LiveTestViewer.tsx\<close>)
  polls the backend for telemetry samples and charts them. A TypeScript \<^verbatim>\<open>number\<close>
  that is a sample index or an identifier is an \<^typ>\<open>int\<close>. A \<^verbatim>\<open>number\<close> that is a
  reading (a channel or \<^verbatim>\<open>t_hour\<close>) is an IEEE double in the source; the model is
  polymorphic in the type \<open>'n\<close> of these numbers. A \<^verbatim>\<open>number | null\<close> is an
  \<^typ>\<open>'a option\<close> with \<^term>\<open>None\<close> for \<^verbatim>\<open>null\<close>.
  The field \<^verbatim>\<open>sup\<close> of the source is \<open>sup_p\<close> here and the field \<^verbatim>\<open>id\<close> is
  \<open>id_t\<close>, since both names are constants of HOL.
\<close>

record Test =
  id_t :: int
  name :: string

record 'n Point =
  idx :: int
  t_hour :: 'n
  rpm :: "'n option"
  cons :: "'n option"
  t1 :: "'n option"
  t2 :: "'n option"
  t3 :: "'n option"
  b1 :: "'n option"
  b2 :: "'n option"
  b3 :: "'n option"
  b4 :: "'n option"
  l1 :: "'n option"
  l2 :: "'n option"
  sup_p :: "'n option"

text \<open>An element of \<^verbatim>\<open>chartData\<close>: the sample spread (\<^verbatim>\<open>...p\<close>) and four more fields.\<close>

record 'n ChartPoint = "'n Point" +
  current_a :: "'n option"
  vdrop :: "'n option"
  hv_minus_avg :: "'n option"
  hv_plus_avg :: "'n option"

subsection \<open>Arithmetic of the readings\<close>

text \<open>
  The averages below are computed in the arithmetic of doubles, which rounds and
  overflows to \<^verbatim>\<open>Infinity\<close>. The model takes that arithmetic as a parameter: the
  \<^verbatim>\<open>+\<close> and the \<^verbatim>\<open>/\<close> of the number type and the value of a numeric literal.
  Nothing is assumed of the three, so what is proved of the derived metrics holds for
  the arithmetic of doubles as for any other.
\<close>

record 'n arith =
  js_add :: "'n \<Rightarrow> 'n \<Rightarrow> 'n"
  js_div :: "'n \<Rightarrow> 'n \<Rightarrow> 'n"
  js_lit :: "nat \<Rightarrow> 'n"

subsection \<open>Derived chart data\<close>

text \<open>
  The three ternaries of the \<^verbatim>\<open>useMemo\<close> callback, one definition each:
  \<^verbatim>\<open>(p.t1 + p.t2 + p.t3) / 3\<close>, \<^verbatim>\<open>(p.b1 + p.b2) / 2\<close> and \<^verbatim>\<open>(p.b3 + p.b4) / 2\<close>,
  the sums taken from left to right.
\<close>

definition vdrop_of :: "'n arith \<Rightarrow> 'n Point \<Rightarrow> 'n option" where
  "vdrop_of A p =
     (if t1 p \<noteq> None \<and> t2 p \<noteq> None \<and> t3 p \<noteq> None
      then Some (js_div A (js_add A (js_add A (the (t1 p)) (the (t2 p))) (the (t3 p)))
                          (js_lit A 3))
      else None)"

definition hv_minus_avg_of :: "'n arith \<Rightarrow> 'n Point \<Rightarrow> 'n option" where
  "hv_minus_avg_of A p =
     (if b1 p \<noteq> None \<and> b2 p \<noteq> None
      then Some (js_div A (js_add A (the (b1 p)) (the (b2 p))) (js_lit A 2))
      else None)"

definition hv_plus_avg_of :: "'n arith \<Rightarrow> 'n Point \<Rightarrow> 'n option" where
  "hv_plus_avg_of A p =
     (if b3 p \<noteq> None \<and> b4 p \<noteq> None
      then Some (js_div A (js_add A (the (b3 p)) (the (b4 p))) (js_lit A 2))
      else None)"

definition derive :: "'n arith \<Rightarrow> 'n Point \<Rightarrow> 'n ChartPoint" where
  "derive A p =
     Point.extend p
       (ChartPoint.fields (cons p) (vdrop_of A p) (hv_minus_avg_of A p) (hv_plus_avg_of A p))"

definition chartData :: "'n arith \<Rightarrow> 'n Point list \<Rightarrow> 'n ChartPoint list" where
  "chartData A ps = map (derive A) ps"

section \<open>The component as a state machine\<close>

text \<open>
  The state of the component: the six \<^verbatim>\<open>useState\<close> cells, the \<^verbatim>\<open>useRef\<close> cell
  \<open>lastIdxRef\<close>, and what the browser holds for it: the interval of the polling effect
  with the values its closure captured (\<open>timer\<close>), the \<^verbatim>\<open>/live_series\<close> requests
  issued and not yet settled (\<open>inflight\<close>, oldest first), and whether the one
  \<^verbatim>\<open>/tests\<close> request of the mount effect is still open (\<open>tests_pending\<close>).
  \<open>setter_calls\<close> counts the calls of state setters: React renders the component again
  only after such a call.
\<close>

datatype sys = Sys1 | Sys2 | Sys3

record Request =
  req_test_id :: int
  req_system :: sys
  req_from_idx :: int
  req_limit :: nat

record 'n Viewer =
  tests :: "Test list"
  testId :: "int option"
  system :: sys
  live :: bool
  data :: "'n Point list"
  lastUpdate :: string
  lastIdxRef :: int
  timer :: "(int \<times> sys) option"
  inflight :: "Request list"
  tests_pending :: bool
  setter_calls :: nat

text \<open>The initial \<^verbatim>\<open>lastUpdate\<close> is an em dash, three bytes in UTF-8.\<close>

definition init :: "'n Viewer" where
  "init =
     \<lparr>tests = [], testId = None, system = Sys1, live = False, data = [],
      lastUpdate = [CHR 0xE2, CHR 0x80, CHR 0x94], lastIdxRef = 0,
      timer = None, inflight = [], tests_pending = True, setter_calls = 0\<rparr>"

subsection \<open>The polling effect\<close>

text \<open>
  The effect with dependencies \<^verbatim>\<open>[live, testId, system]\<close>. When it runs again, the
  cleanup of the previous run clears the interval (\<^verbatim>\<open>clearInterval(timer)\<close>); the body
  returns early if \<^verbatim>\<open>!live || testId === null\<close> and installs a new interval otherwise,
  whose callback sees the \<open>testId\<close> and \<open>system\<close> of this render. The model runs
  it in the same step as the handler that changed a dependency: no tick falls between a
  handler and the effect of the render it causes. The period of 2000 ms is not
  modelled; a tick is an event that may occur whenever an interval is installed.
\<close>

definition polling_effect :: "'n Viewer \<Rightarrow> 'n Viewer" where
  "polling_effect s =
     (if \<not> live s \<or> testId s = None then s\<lparr>timer := None\<rparr>
      else s\<lparr>timer := Some (the (testId s), system s)\<rparr>)"

subsection \<open>Handlers\<close>

text \<open>
  The \<^verbatim>\<open>.then\<close> callback of the mount effect. Its closure is the one of the first
  render, so \<^verbatim>\<open>testId === null\<close> reads the initial \<open>testId\<close>.
\<close>

definition tests_loaded :: "Test list \<Rightarrow> 'n Viewer \<Rightarrow> 'n Viewer" where
  "tests_loaded ts s =
     (if \<not> tests_pending s then s
      else
        let s1 = s\<lparr>tests := ts, tests_pending := False, setter_calls := setter_calls s + 1\<rparr>
        in polling_effect
             (if length ts \<noteq> 0 \<and> testId (init :: 'n Viewer) = None
              then s1\<lparr>testId := Some (id_t (ts ! 0)), setter_calls := setter_calls s1 + 1\<rparr>
              else s1))"

text \<open>
  \<^verbatim>\<open>onChange\<close> of the two selectors. Both are \<^verbatim>\<open>disabled={live}\<close>, and the test
  selector offers the identifiers of \<open>tests\<close> only.
\<close>

definition select_test :: "int \<Rightarrow> 'n Viewer \<Rightarrow> 'n Viewer" where
  "select_test v s =
     (if live s \<or> v \<notin> set (map id_t (tests s)) then s
      else polling_effect (s\<lparr>testId := Some v, setter_calls := setter_calls s + 1\<rparr>))"

definition select_system :: "sys \<Rightarrow> 'n Viewer \<Rightarrow> 'n Viewer" where
  "select_system v s =
     (if live s then s
      else polling_effect (s\<lparr>system := v, setter_calls := setter_calls s + 1\<rparr>))"

text \<open>\<^verbatim>\<open>!testId\<close>: \<^verbatim>\<open>null\<close> and \<^verbatim>\<open>0\<close> are falsy.\<close>

fun falsy :: "int option \<Rightarrow> bool" where
  "falsy None = True"
| "falsy (Some n) = (n = 0)"

definition start_disabled :: "'n Viewer \<Rightarrow> bool" where
  "start_disabled s = (falsy (testId s) \<or> live s)"

definition start_live :: "'n Viewer \<Rightarrow> 'n Viewer" where
  "start_live s =
     (if start_disabled s then s
      else polling_effect
             (s\<lparr>data := [], lastIdxRef := 0, live := True,
                setter_calls := setter_calls s + 2\<rparr>))"

definition stop_disabled :: "'n Viewer \<Rightarrow> bool" where
  "stop_disabled s = (\<not> live s)"

definition stop :: "'n Viewer \<Rightarrow> 'n Viewer" where
  "stop s =
     (if stop_disabled s then s
      else polling_effect (s\<lparr>live := False, setter_calls := setter_calls s + 1\<rparr>))"

text \<open>
  The interval callback up to its \<^verbatim>\<open>await\<close>: it issues one request, with the captured
  \<open>testId\<close> and \<open>system\<close> and the cursor read from the ref at this moment.
\<close>

definition tick :: "'n Viewer \<Rightarrow> 'n Viewer" where
  "tick s =
     (case timer s of
        None \<Rightarrow> s
      | Some (tid, sy) \<Rightarrow>
          s\<lparr>inflight := inflight s @
               [\<lparr>req_test_id = tid, req_system = sy,
                 req_from_idx = lastIdxRef s, req_limit = 500\<rparr>]\<rparr>)"

text \<open>
  The callback after its \<^verbatim>\<open>await\<close>, with the rows of the response and the string
  \<^verbatim>\<open>new Date().toLocaleTimeString()\<close> gives at that moment.
\<close>

definition receive :: "'n Point list \<Rightarrow> string \<Rightarrow> 'n Viewer \<Rightarrow> 'n Viewer" where
  "receive rows now s =
     (if length rows > 0
      then s\<lparr>lastIdxRef := idx (rows ! (length rows - 1)),
             data := data s @ rows,
             lastUpdate := now,
             setter_calls := setter_calls s + 2\<rparr>
      else s)"

definition settle :: "nat \<Rightarrow> 'n Viewer \<Rightarrow> 'n Viewer" where
  "settle k s = s\<lparr>inflight := take k (inflight s) @ drop (Suc k) (inflight s)\<rparr>"

text \<open>The \<open>k\<close>-th open request resolves with \<open>rows\<close>.\<close>

definition response :: "nat \<Rightarrow> 'n Point list \<Rightarrow> string \<Rightarrow> 'n Viewer \<Rightarrow> 'n Viewer" where
  "response k rows now s =
     (if k < length (inflight s) then receive rows now (settle k s) else s)"

text \<open>
  The \<open>k\<close>-th open request rejects: \<^verbatim>\<open>await\<close> throws, the callback has no
  \<^verbatim>\<open>try\<close>, and the rest of its body does not run.
\<close>

definition failure :: "nat \<Rightarrow> 'n Viewer \<Rightarrow> 'n Viewer" where
  "failure k s = (if k < length (inflight s) then settle k s else s)"

subsection \<open>Events and runs\<close>

datatype 'n event =
    TestsLoaded "Test list"
  | SelectTest int
  | SelectSystem sys
  | StartLive
  | Stop
  | Tick
  | Response nat "'n Point list" string
  | Failure nat

fun step :: "'n Viewer \<Rightarrow> 'n event \<Rightarrow> 'n Viewer" where
  "step s (TestsLoaded ts) = tests_loaded ts s"
| "step s (SelectTest v) = select_test v s"
| "step s (SelectSystem v) = select_system v s"
| "step s StartLive = start_live s"
| "step s Stop = stop s"
| "step s Tick = tick s"
| "step s (Response k rows now) = response k rows now s"
| "step s (Failure k) = failure k s"

definition run :: "'n Viewer \<Rightarrow> 'n event list \<Rightarrow> 'n Viewer" where
  "run s es = foldl step s es"

subsection \<open>Unmounting\<close>

text \<open>
  Leaving the route \<^verbatim>\<open>/live\<close> unmounts the component. React runs the cleanup of the
  polling effect, \<^verbatim>\<open>clearInterval(timer)\<close>, and the component is gone: no handler of
  a selector or a button can run any more and no effect runs again.
\<close>

definition unmount :: "'n Viewer \<Rightarrow> 'n Viewer" where
  "unmount s = s\<lparr>timer := None\<rparr>"

text \<open>
  What can still reach the closures of the unmounted component is the settling of a
  request that was open: the \<^verbatim>\<open>/tests\<close> request of the mount effect or a
  \<^verbatim>\<open>/live_series\<close> request in flight. The callbacks run as before, the poll callback
  writes \<^verbatim>\<open>lastIdxRef.current\<close>, and the state setters they call are ignored by React,
  which does not update the state of an unmounted component: the cells keep their
  values. A tick would run the interval callback if an interval were installed.
\<close>

definition late_tests_loaded :: "Test list \<Rightarrow> 'n Viewer \<Rightarrow> 'n Viewer" where
  "late_tests_loaded ts s =
     (if \<not> tests_pending s then s
      else
        let s1 = s\<lparr>tests_pending := False, setter_calls := setter_calls s + 1\<rparr>
        in if length ts \<noteq> 0 \<and> testId (init :: 'n Viewer) = None
           then s1\<lparr>setter_calls := setter_calls s1 + 1\<rparr>
           else s1)"

definition late_receive :: "'n Point list \<Rightarrow> string \<Rightarrow> 'n Viewer \<Rightarrow> 'n Viewer" where
  "late_receive rows now s =
     (if length rows > 0
      then s\<lparr>lastIdxRef := idx (rows ! (length rows - 1)),
             setter_calls := setter_calls s + 2\<rparr>
      else s)"

definition late_response :: "nat \<Rightarrow> 'n Point list \<Rightarrow> string \<Rightarrow> 'n Viewer \<Rightarrow> 'n Viewer" where
  "late_response k rows now s =
     (if k < length (inflight s) then late_receive rows now (settle k s) else s)"

fun late_step :: "'n Viewer \<Rightarrow> 'n event \<Rightarrow> 'n Viewer" where
  "late_step s (TestsLoaded ts) = late_tests_loaded ts s"
| "late_step s (SelectTest v) = s"
| "late_step s (SelectSystem v) = s"
| "late_step s StartLive = s"
| "late_step s Stop = s"
| "late_step s Tick = tick s"
| "late_step s (Response k rows now) = late_response k rows now s"
| "late_step s (Failure k) = failure k s"

definition late_run :: "'n Viewer \<Rightarrow> 'n event list \<Rightarrow> 'n Viewer" where
  "late_run s es = foldl late_step s es"

subsection \<open>What the component renders\<close>

text \<open>
  The JSX as a value: the text after \<^verbatim>\<open>Last update:\<close>, the two selectors, the two
  buttons, the \<^verbatim>\<open>LIVE\<close> badge, and for each of the six charts its title and the
  series of its \<^verbatim>\<open>dataKey\<close> against \<^verbatim>\<open>t_hour\<close>.
\<close>

record 'n View =
  v_lastUpdate :: string
  v_test_disabled :: bool
  v_test_value :: "int option"
  v_test_options :: "Test list"
  v_system_disabled :: bool
  v_system_value :: sys
  v_start_disabled :: bool
  v_stop_disabled :: bool
  v_live_badge :: bool
  v_charts :: "(string \<times> ('n \<times> 'n option) list) list"

definition Chart :: "string \<Rightarrow> ('n ChartPoint \<Rightarrow> 'n option) \<Rightarrow> 'n ChartPoint list
    \<Rightarrow> string \<times> ('n \<times> 'n option) list" where
  "Chart title dataKey ps = (title, map (\<lambda>p. (t_hour p, dataKey p)) ps)"

definition render :: "'n arith \<Rightarrow> 'n Viewer \<Rightarrow> 'n View" where
  "render A s =
     \<lparr>v_lastUpdate = lastUpdate s,
      v_test_disabled = live s,
      v_test_value = testId s,
      v_test_options = tests s,
      v_system_disabled = live s,
      v_system_value = system s,
      v_start_disabled = start_disabled s,
      v_stop_disabled = stop_disabled s,
      v_live_badge = live s,
      v_charts =
        [Chart ''Voltage drop (V)'' vdrop (chartData A (data s)),
         Chart ''Current (A)'' current_a (chartData A (data s)),
         Chart ''RPM'' rpm (chartData A (data s)),
         Chart ''HV+ avg'' hv_plus_avg (chartData A (data s)),
         Chart ''Lower box temp'' l1 (chartData A (data s)),
         Chart ''Support temp'' sup_p (chartData A (data s))]\<rparr>"

subsection \<open>Sequences of appends\<close>

text \<open>
  The responses of one session, applied in the order they arrive: each element is the
  rows of a response and the time string of its arrival.
\<close>

fun appends :: "'n Viewer \<Rightarrow> ('n Point list \<times> string) list \<Rightarrow> 'n Viewer" where
  "appends s [] = s"
| "appends s ((rows, now) # bs) = appends (receive rows now s) bs"

text \<open>
  What the backend promises for \<^verbatim>\<open>/live_series\<close> when every response answers a
  request made at the current cursor: the indices arrive in strictly increasing order,
  all above the cursor \<open>c\<close> the session had before them.
\<close>

definition ascending_from :: "int \<Rightarrow> 'n Point list list \<Rightarrow> bool" where
  "ascending_from c bs = sorted_wrt (<) (c # map idx (concat bs))"

subsection \<open>An invariant of the poller\<close>

text \<open>
  What holds in every state the component reaches: the interval is the one the polling
  effect installs for the current \<open>live\<close>, \<open>testId\<close> and \<open>system\<close>; live mode is
  on only with a truthy \<open>testId\<close>; and before the list of tests has arrived nothing is
  selected.
\<close>

definition poller_inv :: "'n Viewer \<Rightarrow> bool" where
  "poller_inv s =
     (timer s = timer (polling_effect s)
      \<and> (live s \<longrightarrow> \<not> falsy (testId s))
      \<and> (tests_pending s \<longrightarrow> \<not> live s \<and> tests s = [] \<and> testId s = None))"

subsection \<open>Example inputs\<close>

text \<open>An arithmetic that does not round, on the reals, and samples with real readings.\<close>

definition exact :: "real arith" where
  "exact = \<lparr>js_add = (+), js_div = (/), js_lit = of_nat\<rparr>"

definition sample :: "int \<Rightarrow> real Point" where
  "sample i =
     \<lparr>idx = i, t_hour = of_int i / 1800, rpm = Some 3000, cons = Some 12,
      t1 = Some 1, t2 = Some 2, t3 = Some 3,
      b1 = Some 40, b2 = None, b3 = Some 50, b4 = Some 53,
      l1 = None, l2 = None, sup_p = Some 25\<rparr>"

text \<open>
  An arithmetic that rounds, on the integers (the quotient is rounded down), and a
  sample whose three voltage taps read 1, 1 and 0.
\<close>

definition rounding :: "int arith" where
  "rounding = \<lparr>js_add = (+), js_div = (div), js_lit = int\<rparr>"

definition taps_110 :: "int Point" where
  "taps_110 =
     \<lparr>idx = 1, t_hour = 0, rpm = None, cons = None,
      t1 = Some 1, t2 = Some 1, t3 = Some 0,
      b1 = Some 3, b2 = Some 4, b3 = None, b4 = Some 5,
      l1 = None, l2 = None, sup_p = None\<rparr>"

definition bench :: "Test list" where
  "bench = [\<lparr>id_t = 1, name = ''A''\<rparr>, \<lparr>id_t = 2, name = ''B''\<rparr>, \<lparr>id_t = 0, name = ''Z''\<rparr>]"

section \<open>Properties\<close>

lemmas handler_defs =
  tests_loaded_def select_test_def select_system_def start_live_def stop_def tick_def
  response_def failure_def receive_def settle_def polling_effect_def start_disabled_def
  stop_disabled_def

lemmas fixture_defs = init_def bench_def sample_def run_def

subsection \<open>Runs and the invariant\<close>

lemma run_Nil: "run s [] = s"
  by (simp add: run_def)

lemma run_Cons: "run s (e # es) = run (step s e) es"
  by (simp add: run_def)

lemma poller_inv_init: "poller_inv init"
  by (simp add: poller_inv_def init_def polling_effect_def)

lemma poller_inv_step: "poller_inv s \<Longrightarrow> poller_inv (step s e)"
  by (cases e)
     (auto simp: poller_inv_def handler_defs Let_def init_def split: option.splits if_splits)

lemma poller_inv_run: "poller_inv s \<Longrightarrow> poller_inv (run s es)"
  by (induction es arbitrary: s) (simp_all add: run_Nil run_Cons poller_inv_step)

lemma idle_step: "\<not> live s \<Longrightarrow> e \<noteq> StartLive \<Longrightarrow> \<not> live (step s e)"
  by (cases e) (simp_all add: handler_defs Let_def split: option.splits)

lemma idle_run: "\<not> live s \<Longrightarrow> StartLive \<notin> set es \<Longrightarrow> \<not> live (run s es)"
proof (induction es arbitrary: s)
  case Nil
  then show ?case by (simp add: run_Nil)
next
  case (Cons e es)
  from Cons.prems have "e \<noteq> StartLive" by auto
  with Cons.prems have "\<not> live (step s e)" by (simp add: idle_step)
  moreover from Cons.prems have "StartLive \<notin> set es" by simp
  ultimately have "\<not> live (run (step s e) es)" by (rule Cons.IH)
  then show ?case by (simp add: run_Cons)
qed

lemma idle_timer: "poller_inv s \<Longrightarrow> \<not> live s \<Longrightarrow> timer s = None"
  by (simp add: poller_inv_def polling_effect_def)

lemma armed_timer:
  "poller_inv s \<Longrightarrow> live s \<Longrightarrow>
     \<exists>tid. testId s = Some tid \<and> tid \<noteq> 0 \<and> timer s = Some (tid, system s)"
  by (cases "testId s") (auto simp add: poller_inv_def polling_effect_def)

lemma stop_idle: "\<not> live (step s Stop)"
  by (simp add: handler_defs)

subsection \<open>Derived metrics\<close>

lemma derive_fields:
  "vdrop (derive A p) = vdrop_of A p"
  "hv_minus_avg (derive A p) = hv_minus_avg_of A p"
  "hv_plus_avg (derive A p) = hv_plus_avg_of A p"
  "current_a (derive A p) = cons p"
  "Point.truncate (derive A p) = p"
  by (simp_all add: derive_def Point.defs ChartPoint.defs)

text \<open>
  Claim C3. For every sample and whatever the arithmetic of the numbers, \<open>vdrop\<close> is
  the mean of \<open>t1\<close>, \<open>t2\<close>, \<open>t3\<close> as that arithmetic computes it, the sum of the three
  from left to right divided by 3, when the three are present, and absent when one of
  them is absent; \<open>hv_minus_avg\<close> is the mean of \<open>b1\<close> and \<open>b2\<close>, their sum divided
  by 2, when both are present, else absent; \<open>hv_plus_avg\<close> is the mean of \<open>b3\<close> and
  \<open>b4\<close> when both are present, else absent. An absent reading is never read as zero,
  the raw fields of the sample are kept as they are, and \<open>derive\<close> is a total function
  with no error value. With an arithmetic that does not round, the three are the exact
  means.
\<close>

theorem derive_means_or_absent:
  "vdrop (derive A p) =
     (case (t1 p, t2 p, t3 p) of
        (Some a, Some b, Some c) \<Rightarrow>
          Some (js_div A (js_add A (js_add A a b) c) (js_lit A 3))
      | _ \<Rightarrow> None)
   \<and> hv_minus_avg (derive A p) =
     (case (b1 p, b2 p) of
        (Some a, Some b) \<Rightarrow> Some (js_div A (js_add A a b) (js_lit A 2))
      | _ \<Rightarrow> None)
   \<and> hv_plus_avg (derive A p) =
     (case (b3 p, b4 p) of
        (Some a, Some b) \<Rightarrow> Some (js_div A (js_add A a b) (js_lit A 2))
      | _ \<Rightarrow> None)
   \<and> Point.truncate (derive A p) = p
   \<and> vdrop (derive exact q) =
     (case (t1 q, t2 q, t3 q) of
        (Some a, Some b, Some c) \<Rightarrow> Some ((a + b + c) / 3)
      | _ \<Rightarrow> None)
   \<and> hv_minus_avg (derive exact q) =
     (case (b1 q, b2 q) of (Some a, Some b) \<Rightarrow> Some ((a + b) / 2) | _ \<Rightarrow> None)
   \<and> hv_plus_avg (derive exact q) =
     (case (b3 q, b4 q) of (Some a, Some b) \<Rightarrow> Some ((a + b) / 2) | _ \<Rightarrow> None)"
proof -
  have v: "vdrop_of B r =
     (case (t1 r, t2 r, t3 r) of
        (Some a, Some b, Some c) \<Rightarrow>
          Some (js_div B (js_add B (js_add B a b) c) (js_lit B 3))
      | _ \<Rightarrow> None)" for B :: "'b arith" and r
    by (simp add: vdrop_of_def split: option.splits)
  have m: "hv_minus_avg_of B r =
     (case (b1 r, b2 r) of
        (Some a, Some b) \<Rightarrow> Some (js_div B (js_add B a b) (js_lit B 2))
      | _ \<Rightarrow> None)" for B :: "'b arith" and r
    by (simp add: hv_minus_avg_of_def split: option.splits)
  have h: "hv_plus_avg_of B r =
     (case (b3 r, b4 r) of
        (Some a, Some b) \<Rightarrow> Some (js_div B (js_add B a b) (js_lit B 2))
      | _ \<Rightarrow> None)" for B :: "'b arith" and r
    by (simp add: hv_plus_avg_of_def split: option.splits)
  have e: "js_add exact x y = x + y" "js_div exact x y = x / y"
    "js_lit exact 3 = 3" "js_lit exact 2 = 2" for x y
    by (simp_all add: exact_def)
  show ?thesis
    by (simp only: derive_fields v m h e)
qed

theorem derive_means_or_absent_witness:
  "vdrop (derive exact (sample 7)) = Some 2
   \<and> hv_minus_avg (derive exact (sample 7)) = None
   \<and> hv_plus_avg (derive exact (sample 7)) = Some (103 / 2)
   \<and> Point.truncate (derive exact (sample 7)) = sample 7
   \<and> vdrop (derive rounding taps_110) = Some 0
   \<and> hv_minus_avg (derive rounding taps_110) = Some 3
   \<and> hv_plus_avg (derive rounding taps_110) = None"
  using derive_means_or_absent [of exact "sample 7" "sample 7"]
    derive_means_or_absent [of rounding taps_110 "sample 7"]
  by (simp add: sample_def exact_def rounding_def taps_110_def)

subsection \<open>Appending responses\<close>

text \<open>
  Claim C6. In every state, a response with no rows changes nothing: the cursor, the
  accumulated samples (hence their number), the time of the last update and the count
  of state-setter calls are what they were, so nothing is rendered again and the view
  is the same. A tick followed by the empty response to its request gives back the
  very state before the tick.
\<close>

theorem empty_response_changes_nothing:
  "lastIdxRef (step s (Response k [] now)) = lastIdxRef s
   \<and> data (step s (Response k [] now)) = data s
   \<and> length (data (step s (Response k [] now))) = length (data s)
   \<and> lastUpdate (step s (Response k [] now)) = lastUpdate s
   \<and> setter_calls (step s (Response k [] now)) = setter_calls s
   \<and> render A (step s (Response k [] now)) = render A s
   \<and> step (step s Tick) (Response (length (inflight s)) [] now) = s"
  by (simp add: response_def receive_def settle_def tick_def render_def
      start_disabled_def stop_disabled_def split: option.splits)

text \<open>
  Claim C7. Two appends one after the other leave the accumulated sequence followed by
  the first batch followed by the second, in that order, nothing dropped and nothing
  moved. This holds for all batches, so in particular when every \<open>idx\<close> of the second
  exceeds every \<open>idx\<close> of the first; from an empty store the result is the
  concatenation of the two.
\<close>

theorem append_is_concatenation:
  "data (receive ys n2 (receive xs n1 s)) = data s @ xs @ ys
   \<and> (data s = [] \<longrightarrow> data (receive ys n2 (receive xs n1 s)) = xs @ ys)"
  by (simp add: receive_def)

theorem append_is_concatenation_witness:
  "data (receive [sample 3, sample 4] ''10:00:02'' (receive [sample 1, sample 2] ''10:00:00'' init))
     = [sample 1, sample 2, sample 3, sample 4]"
  using append_is_concatenation [of "[sample 3, sample 4]" "''10:00:02''" "[sample 1, sample 2]" "''10:00:00''" init]
  by (simp add: init_def)

subsection \<open>Leaving live mode\<close>

text \<open>
  Claim C1 as stated does not hold. Stop clears the interval and nothing else: a request
  issued before Stop stays open, and when its response arrives the callback appends its
  rows. Below, live mode is stopped with one request for test 1 open and the store
  empty; the response then puts a sample into the store of the stopped session. In the
  second run the user selects test 2 and starts again before that response arrives: the
  sample of test 1 lands in the store of the session for test 2.
\<close>

theorem stale_response_mutates_store:
  "\<not> live (run init [TestsLoaded bench, StartLive, Tick, Stop])
   \<and> data (run init [TestsLoaded bench, StartLive, Tick, Stop]) = []
   \<and> data (run init [TestsLoaded bench, StartLive, Tick, Stop,
                      Response 0 [sample 1] ''10:00:03'']) = [sample 1]
   \<and> map req_test_id
        (inflight (run init [TestsLoaded bench, StartLive, Tick, Stop, SelectTest 2, StartLive]))
        = [1]
   \<and> testId (run init [TestsLoaded bench, StartLive, Tick, Stop, SelectTest 2, StartLive])
        = Some 2
   \<and> data (run init [TestsLoaded bench, StartLive, Tick, Stop, SelectTest 2, StartLive]) = []
   \<and> data (run init [TestsLoaded bench, StartLive, Tick, Stop, SelectTest 2, StartLive,
                      Response 0 [sample 1] ''10:00:03'']) = [sample 1]"
  by (simp add: fixture_defs handler_defs)

lemma late_step_frame:
  "timer s = None \<Longrightarrow>
     timer (late_step s e) = None \<and> data (late_step s e) = data s
     \<and> lastUpdate (late_step s e) = lastUpdate s"
  by (cases e)
     (simp_all add: late_tests_loaded_def late_response_def late_receive_def settle_def
        failure_def tick_def Let_def)

lemma late_run_frame:
  "timer s = None \<Longrightarrow>
     timer (late_run s es) = None \<and> data (late_run s es) = data s
     \<and> lastUpdate (late_run s es) = lastUpdate s"
proof (induction es arbitrary: s)
  case Nil
  then show ?case by (simp add: late_run_def)
next
  case (Cons e es)
  from Cons.prems have f: "timer (late_step s e) = None \<and> data (late_step s e) = data s
     \<and> lastUpdate (late_step s e) = lastUpdate s"
    by (rule late_step_frame)
  then have "timer (late_run (late_step s e) es) = None
     \<and> data (late_run (late_step s e) es) = data (late_step s e)
     \<and> lastUpdate (late_run (late_step s e) es) = lastUpdate (late_step s e)"
    by (simp add: Cons.IH)
  with f show ?case by (simp add: late_run_def)
qed

text \<open>
  Claim C1, amended. When live mode leaves Armed, every scheduled fetch is cancelled.
  If the user presses Stop, the interval of the polling effect is cleared: from any
  reachable state, after Stop and any further events other than Start Live, live mode
  is off, no interval is installed, and a tick issues no fetch and changes nothing
  (nothing is said here about requests that were already in flight). If the view
  unmounts, the interval is cleared as well: whatever reaches the component afterwards,
  no interval is installed, a tick issues no fetch, and a response that arrives late
  changes neither the accumulated samples nor the time of the last update. And whenever
  the polling effect runs again, the interval of its previous run does not survive: the
  interval afterwards is determined by \<open>live\<close>, \<open>testId\<close> and \<open>system\<close> alone, and
  there is none if live mode is off or no test is selected.
\<close>

theorem leaving_armed_clears_polling_timer:
  "(StartLive \<notin> set es' \<longrightarrow>
      \<not> live (run (step (run init es) Stop) es')
      \<and> timer (run (step (run init es) Stop) es') = None
      \<and> step (run (step (run init es) Stop) es') Tick = run (step (run init es) Stop) es')
   \<and> timer (late_run (unmount (run init es)) ls) = None
   \<and> late_step (late_run (unmount (run init es)) ls) Tick = late_run (unmount (run init es)) ls
   \<and> data (late_run (unmount (run init es)) ls) = data (run init es)
   \<and> lastUpdate (late_run (unmount (run init es)) ls) = lastUpdate (run init es)
   \<and> timer (polling_effect (s\<lparr>timer := t\<rparr>)) = timer (polling_effect s)
   \<and> (\<not> live s \<or> testId s = None \<longrightarrow> timer (polling_effect s) = None)"
proof (intro conjI impI)
  assume a: "StartLive \<notin> set es'"
  let ?s = "run (step (run init es) Stop) es'"
  have i: "poller_inv ?s" by (intro poller_inv_run poller_inv_step poller_inv_init)
  show l: "\<not> live ?s" using stop_idle a by (rule idle_run)
  show t: "timer ?s = None" using i l by (rule idle_timer)
  show "step ?s Tick = ?s" using t by (simp add: tick_def)
next
  let ?u = "late_run (unmount (run init es)) ls"
  have "timer (unmount (run init es)) = None" by (simp add: unmount_def)
  from late_run_frame [OF this]
  have f: "timer ?u = None \<and> data ?u = data (unmount (run init es))
     \<and> lastUpdate ?u = lastUpdate (unmount (run init es))" .
  show "timer ?u = None" using f by simp
  show "late_step ?u Tick = ?u" using f by (simp add: tick_def)
  show "data ?u = data (run init es)" using f by (simp add: unmount_def)
  show "lastUpdate ?u = lastUpdate (run init es)" using f by (simp add: unmount_def)
next
  show "timer (polling_effect (s\<lparr>timer := t\<rparr>)) = timer (polling_effect s)"
    by (simp add: polling_effect_def)
next
  assume "\<not> live s \<or> testId s = None"
  then show "timer (polling_effect s) = None" by (auto simp: polling_effect_def)
qed

theorem leaving_armed_clears_polling_timer_witness:
  "timer (run init [TestsLoaded bench, StartLive, Tick]) = Some (1, Sys1)
   \<and> timer (run init [TestsLoaded bench, StartLive, Tick, Stop, Tick, SelectTest 2, Tick]) = None
   \<and> inflight (run init [TestsLoaded bench, StartLive, Tick, Stop, Tick, SelectTest 2, Tick])
       = inflight (run init [TestsLoaded bench, StartLive, Tick])
   \<and> timer (late_run (unmount (run init [TestsLoaded bench, StartLive, Tick]))
              [Tick, Response 0 [sample 1] ''10:00:03'', Tick]) = None
   \<and> inflight (late_run (unmount (run init [TestsLoaded bench, StartLive, Tick]))
              [Tick, Response 0 [sample 1] ''10:00:03'', Tick]) = []
   \<and> data (late_run (unmount (run init [TestsLoaded bench, StartLive, Tick]))
              [Tick, Response 0 [sample 1] ''10:00:03'', Tick]) = []
   \<and> timer (polling_effect
        ((run init [TestsLoaded bench, StartLive, Tick, Response 0 [sample 1] ''10:00:03''])
           \<lparr>live := False\<rparr>)) = None"
  using leaving_armed_clears_polling_timer
    [where es' = "[Tick, SelectTest 2]" and es = "[TestsLoaded bench, StartLive, Tick]"
       and ls = "[Tick, Response 0 [sample 1] ''10:00:03'', Tick]"
       and s = "(run init [TestsLoaded bench, StartLive, Tick,
                    Response 0 [sample 1] ''10:00:03''])\<lparr>live := False\<rparr>"
       and t = None]
  by (simp add: fixture_defs handler_defs late_run_def unmount_def late_response_def
      late_receive_def)

subsection \<open>Ticks and requests in flight\<close>

text \<open>
  Claim C2 as stated does not hold. The interval callback issues its request whatever
  is still open: two ticks with no response in between leave two requests in flight,
  both with \<open>from_idx = 0\<close>.
\<close>

theorem overlapping_fetches_same_cursor:
  "live (run init [TestsLoaded bench, StartLive, Tick, Tick])
   \<and> length (inflight (run init [TestsLoaded bench, StartLive, Tick, Tick])) = 2
   \<and> map req_from_idx (inflight (run init [TestsLoaded bench, StartLive, Tick, Tick])) = [0, 0]"
  by (simp add: fixture_defs handler_defs)

text \<open>
  Claim C2, amended. In every reachable state with live mode on, a test is selected and
  a tick issues exactly one fetch, for the selected test and system, with \<open>from_idx\<close>
  the cursor at that moment and limit 500; it is added to the requests in flight,
  however many there are, and nothing else changes. No tick is skipped or queued.
\<close>

theorem tick_always_issues_fetch:
  "live (run init es) \<Longrightarrow>
     \<exists>tid. testId (run init es) = Some tid
       \<and> step (run init es) Tick =
           (run init es)\<lparr>inflight := inflight (run init es) @
              [\<lparr>req_test_id = tid, req_system = system (run init es),
                req_from_idx = lastIdxRef (run init es), req_limit = 500\<rparr>]\<rparr>"
proof -
  assume l: "live (run init es)"
  have "poller_inv (run init es)" by (simp add: poller_inv_run poller_inv_init)
  from armed_timer [OF this l] show ?thesis by (auto simp: tick_def)
qed

theorem tick_always_issues_fetch_witness:
  "live (run init [TestsLoaded bench, StartLive, Tick])
   \<and> inflight (step (run init [TestsLoaded bench, StartLive, Tick]) Tick) =
       [\<lparr>req_test_id = 1, req_system = Sys1, req_from_idx = 0, req_limit = 500\<rparr>,
        \<lparr>req_test_id = 1, req_system = Sys1, req_from_idx = 0, req_limit = 500\<rparr>]"
  using tick_always_issues_fetch [of "[TestsLoaded bench, StartLive, Tick]"]
  by (simp add: fixture_defs handler_defs)

subsection \<open>Resetting the store\<close>

text \<open>
  Claim C4 as stated does not hold. The handlers of the two selectors call
  \<^verbatim>\<open>setTestId\<close> or \<^verbatim>\<open>setSystem\<close> and nothing else, and the polling effect that runs
  afterwards does not touch the store. Below, one sample is fetched for system 1, live
  mode is stopped and system 2 is selected: the sample and the cursor are still there.
\<close>

theorem selection_change_keeps_store:
  "system (run init [TestsLoaded bench, StartLive, Tick,
                     Response 0 [sample 5] ''10:00:00'', Stop]) = Sys1
   \<and> system (run init [TestsLoaded bench, StartLive, Tick,
                     Response 0 [sample 5] ''10:00:00'', Stop, SelectSystem Sys2]) = Sys2
   \<and> data (run init [TestsLoaded bench, StartLive, Tick,
                     Response 0 [sample 5] ''10:00:00'', Stop, SelectSystem Sys2]) = [sample 5]
   \<and> lastIdxRef (run init [TestsLoaded bench, StartLive, Tick,
                     Response 0 [sample 5] ''10:00:00'', Stop, SelectSystem Sys2]) = 5"
  by (simp add: fixture_defs handler_defs)

text \<open>
  Claim C4, amended. The store is emptied and the cursor set to zero on every start of a
  live session (Start Live pressed while the button is enabled), and live mode is then
  on. A change of the selection, by either selector or by the arrival of the list of
  tests, leaves the store and the cursor as they are.
\<close>

theorem reset_on_start_only:
  "(\<not> start_disabled s \<longrightarrow>
      data (step s StartLive) = [] \<and> lastIdxRef (step s StartLive) = 0
      \<and> live (step s StartLive))
   \<and> data (step s (SelectTest v)) = data s
   \<and> lastIdxRef (step s (SelectTest v)) = lastIdxRef s
   \<and> data (step s (SelectSystem y)) = data s
   \<and> lastIdxRef (step s (SelectSystem y)) = lastIdxRef s
   \<and> data (step s (TestsLoaded ts)) = data s
   \<and> lastIdxRef (step s (TestsLoaded ts)) = lastIdxRef s"
  by (auto simp: handler_defs Let_def)

theorem reset_on_start_only_witness:
  "\<not> start_disabled (run init [TestsLoaded bench, StartLive, Tick,
                                Response 0 [sample 5] ''10:00:00'', Stop])
   \<and> data (run init [TestsLoaded bench, StartLive, Tick,
                     Response 0 [sample 5] ''10:00:00'', Stop]) = [sample 5]
   \<and> data (step (run init [TestsLoaded bench, StartLive, Tick,
                           Response 0 [sample 5] ''10:00:00'', Stop]) StartLive) = []
   \<and> lastIdxRef (step (run init [TestsLoaded bench, StartLive, Tick,
                           Response 0 [sample 5] ''10:00:00'', Stop]) StartLive) = 0"
  using reset_on_start_only
    [of "run init [TestsLoaded bench, StartLive, Tick, Response 0 [sample 5] ''10:00:00'', Stop]"]
  by (simp add: fixture_defs handler_defs)

subsection \<open>The cursor\<close>

lemma last_last_Cons: "last (last (c # xs) # ys) = last (c # xs @ ys)"
  by (cases ys) simp_all

lemma receive_cursor: "lastIdxRef (receive rows now s) = last (lastIdxRef s # map idx rows)"
  by (cases "rows = []") (simp_all add: receive_def last_conv_nth last_map)

lemma appends_cursor:
  "lastIdxRef (appends s bs) = last (lastIdxRef s # map idx (concat (map fst bs)))"
proof (induction s bs rule: appends.induct)
  case (1 s)
  then show ?case by simp
next
  case (2 s rows now bs)
  have "lastIdxRef (appends s ((rows, now) # bs))
          = last (last (lastIdxRef s # map idx rows) # map idx (concat (map fst bs)))"
    using 2 by (simp only: appends.simps receive_cursor)
  also have "\<dots> = last (lastIdxRef s # map idx rows @ map idx (concat (map fst bs)))"
    by (rule last_last_Cons)
  finally show ?case by simp
qed

lemma appends_data: "data (appends s bs) = data s @ concat (map fst bs)"
  by (induction s bs rule: appends.induct) (simp_all add: receive_def)

lemma appends_frame:
  "timer (appends s bs) = timer s \<and> inflight (appends s bs) = inflight s
   \<and> live (appends s bs) = live s"
  by (induction s bs rule: appends.induct) (simp_all add: receive_def)

lemma strict_last_Max:
  fixes xs :: "int list"
  shows "sorted_wrt (<) xs \<Longrightarrow> xs \<noteq> [] \<Longrightarrow> last xs = Max (set xs)"
proof (induction xs)
  case Nil
  then show ?case by simp
next
  case (Cons x xs)
  show ?case
  proof (cases "xs = []")
    case True
    then show ?thesis by simp
  next
    case False
    with Cons have ih: "last xs = Max (set xs)" by simp
    have "\<forall>y\<in>set xs. x < y" using Cons.prems by simp
    then have "x < Max (set xs)" using False by simp
    then show ?thesis using False ih by (simp add: max_def)
  qed
qed

lemma ascending_take:
  assumes "ascending_from c bs"
  shows "ascending_from c (take n bs)"
proof -
  have "concat bs = concat (take n bs) @ concat (drop n bs)"
    by (metis append_take_drop_id concat_append)
  then have "c # map idx (concat bs)
               = (c # map idx (concat (take n bs))) @ map idx (concat (drop n bs))"
    by simp
  with assms show ?thesis
    unfolding ascending_from_def by (metis sorted_wrt_append)
qed

text \<open>
  Claim C5 as stated does not hold. The cursor is the \<open>idx\<close> of the last row of the
  response handled last, whatever was appended before. Below, two ticks issue two
  requests with \<open>from_idx = 0\<close>; the second is answered first, with rows 1 to 3, and the
  first afterwards, with rows 1 and 2 (each response in ascending order and above the
  \<open>from_idx\<close> of its request). All five rows are appended in one live session, the
  cursor ends at 2 and the largest \<open>idx\<close> appended is 3.
\<close>

theorem cursor_below_max_after_overlap:
  "live (run init [TestsLoaded bench, StartLive, Tick, Tick,
       Response 1 [sample 1, sample 2, sample 3] ''10:00:03'',
       Response 0 [sample 1, sample 2] ''10:00:04''])
   \<and> map idx (data (run init [TestsLoaded bench, StartLive, Tick, Tick,
       Response 1 [sample 1, sample 2, sample 3] ''10:00:03'',
       Response 0 [sample 1, sample 2] ''10:00:04''])) = [1, 2, 3, 1, 2]
   \<and> lastIdxRef (run init [TestsLoaded bench, StartLive, Tick, Tick,
       Response 1 [sample 1, sample 2, sample 3] ''10:00:03'',
       Response 0 [sample 1, sample 2] ''10:00:04'']) = 2
   \<and> Max (idx ` set (data (run init [TestsLoaded bench, StartLive, Tick, Tick,
       Response 1 [sample 1, sample 2, sample 3] ''10:00:03'',
       Response 0 [sample 1, sample 2] ''10:00:04'']))) = 3"
  by (simp add: fixture_defs handler_defs)

text \<open>
  Claim C5, amended. After any sequence of appends the cursor is the \<open>idx\<close> of the last
  sample appended (the old cursor if none was). If the indices of the appended samples
  arrive in strictly increasing order, all above the cursor the sequence started from,
  then after each append that has brought at least one sample the cursor equals the
  maximum \<open>idx\<close> of the samples appended so far. A tick of an armed poller then requests
  \<open>from_idx\<close> equal to the cursor.
\<close>

theorem cursor_last_and_max_when_ascending:
  "lastIdxRef (appends s bs) = last (lastIdxRef s # map idx (concat (map fst bs)))
   \<and> data (appends s bs) = data s @ concat (map fst bs)
   \<and> (ascending_from (lastIdxRef s) (map fst bs) \<and> concat (map fst (take n bs)) \<noteq> [] \<longrightarrow>
        lastIdxRef (appends s (take n bs)) = Max (idx ` set (concat (map fst (take n bs)))))
   \<and> (timer s = Some (tid, sy) \<longrightarrow>
        inflight (step (appends s bs) Tick) =
          inflight s @ [\<lparr>req_test_id = tid, req_system = sy,
                          req_from_idx = lastIdxRef (appends s bs), req_limit = 500\<rparr>])"
proof (intro conjI impI)
  show "lastIdxRef (appends s bs) = last (lastIdxRef s # map idx (concat (map fst bs)))"
    by (rule appends_cursor)
next
  show "data (appends s bs) = data s @ concat (map fst bs)"
    by (rule appends_data)
next
  assume a: "ascending_from (lastIdxRef s) (map fst bs) \<and> concat (map fst (take n bs)) \<noteq> []"
  let ?xs = "map idx (concat (map fst (take n bs)))"
  from a have "ascending_from (lastIdxRef s) (take n (map fst bs))"
    by (simp add: ascending_take)
  then have "sorted_wrt (<) ?xs" by (simp add: ascending_from_def take_map)
  moreover have ne: "?xs \<noteq> []" using a by simp
  ultimately have "last ?xs = Max (set ?xs)" by (rule strict_last_Max)
  moreover have "lastIdxRef (appends s (take n bs)) = last ?xs"
    using ne by (simp only: appends_cursor) (rule last_ConsR)
  ultimately show
    "lastIdxRef (appends s (take n bs)) = Max (idx ` set (concat (map fst (take n bs))))"
    by simp
next
  assume "timer s = Some (tid, sy)"
  then show "inflight (step (appends s bs) Tick) =
          inflight s @ [\<lparr>req_test_id = tid, req_system = sy,
                          req_from_idx = lastIdxRef (appends s bs), req_limit = 500\<rparr>]"
    by (simp add: tick_def appends_frame)
qed

theorem cursor_last_and_max_when_ascending_witness:
  "ascending_from 0 [[sample 1, sample 2], [], [sample 3]]
   \<and> lastIdxRef (appends (run init [TestsLoaded bench, StartLive])
        [([sample 1, sample 2], ''10:00:02'')]) = 2
   \<and> lastIdxRef (appends (run init [TestsLoaded bench, StartLive])
        [([sample 1, sample 2], ''10:00:02''), ([], ''10:00:04''),
         ([sample 3], ''10:00:06'')]) = 3
   \<and> Max (idx ` set [sample 1, sample 2, sample 3]) = 3
   \<and> inflight (step (appends (run init [TestsLoaded bench, StartLive])
        [([sample 1, sample 2], ''10:00:02''), ([], ''10:00:04''),
         ([sample 3], ''10:00:06'')]) Tick)
      = [\<lparr>req_test_id = 1, req_system = Sys1, req_from_idx = 3, req_limit = 500\<rparr>]"
  using cursor_last_and_max_when_ascending
    [of "run init [TestsLoaded bench, StartLive]"
        "[([sample 1, sample 2], ''10:00:02''), ([], ''10:00:04''), ([sample 3], ''10:00:06'')]"
        3 1 Sys1]
  by (simp add: fixture_defs handler_defs ascending_from_def)

subsection \<open>A failed fetch\<close>

text \<open>
  Claim C8, at a failing input. Live mode is on for test 1 and the request of the first
  tick is rejected. The callback has no \<^verbatim>\<open>try\<close> around its \<^verbatim>\<open>await\<close> and the
  component has no state for a status: no setter is called and what is rendered is what
  was rendered before, so the failure is not shown, where the claim has it surfaced as a
  status indicator. The rest of the claim holds here: live mode stays on, the store and
  the cursor are unchanged, the interval is still installed and the next tick asks
  again with the same cursor.
\<close>

theorem fetch_failure_not_surfaced:
  "live (run init [TestsLoaded bench, StartLive, Tick])
   \<and> length (inflight (run init [TestsLoaded bench, StartLive, Tick])) = 1
   \<and> render exact (step (run init [TestsLoaded bench, StartLive, Tick]) (Failure 0))
       = render exact (run init [TestsLoaded bench, StartLive, Tick])
   \<and> setter_calls (step (run init [TestsLoaded bench, StartLive, Tick]) (Failure 0))
       = setter_calls (run init [TestsLoaded bench, StartLive, Tick])
   \<and> step (run init [TestsLoaded bench, StartLive, Tick]) (Failure 0)
       = run init [TestsLoaded bench, StartLive]
   \<and> inflight (run init [TestsLoaded bench, StartLive, Tick, Failure 0, Tick])
       = [\<lparr>req_test_id = 1, req_system = Sys1, req_from_idx = 0, req_limit = 500\<rparr>]"
  by (simp add: fixture_defs handler_defs render_def)

subsection \<open>Stop and Start Live\<close>

text \<open>
  Claim C9. Stop only disarms the poller: in every state it leaves the accumulated
  samples, the cursor and the time of the last update as they are, so the charts show
  what they showed; if live mode was on it is off afterwards and the interval is
  cleared. A store that holds samples is empty after an event only if that event is
  Start Live, pressed while the button is enabled.
\<close>

theorem stop_keeps_store:
  "data (step s Stop) = data s
   \<and> lastIdxRef (step s Stop) = lastIdxRef s
   \<and> lastUpdate (step s Stop) = lastUpdate s
   \<and> v_charts (render A (step s Stop)) = v_charts (render A s)
   \<and> (live s \<longrightarrow> \<not> live (step s Stop) \<and> timer (step s Stop) = None)
   \<and> (data s \<noteq> [] \<and> data (step s e) = [] \<longrightarrow> e = StartLive \<and> \<not> start_disabled s)"
  by (cases e) (auto simp: handler_defs render_def Let_def split: if_splits option.splits)

theorem stop_keeps_store_witness:
  "live (run init [TestsLoaded bench, StartLive, Tick, Response 0 [sample 1] ''10:00:00''])
   \<and> data (step (run init [TestsLoaded bench, StartLive, Tick,
                           Response 0 [sample 1] ''10:00:00'']) Stop) = [sample 1]
   \<and> lastIdxRef (step (run init [TestsLoaded bench, StartLive, Tick,
                           Response 0 [sample 1] ''10:00:00'']) Stop) = 1
   \<and> \<not> live (step (run init [TestsLoaded bench, StartLive, Tick,
                           Response 0 [sample 1] ''10:00:00'']) Stop)
   \<and> data (step (run init [TestsLoaded bench, StartLive, Tick,
                           Response 0 [sample 1] ''10:00:00'', Stop]) StartLive) = []"
  using stop_keeps_store
    [where s = "run init [TestsLoaded bench, StartLive, Tick, Response 0 [sample 1] ''10:00:00'']"
       and e = StartLive and A = exact]
    stop_keeps_store
    [where s = "run init [TestsLoaded bench, StartLive, Tick, Response 0 [sample 1] ''10:00:00'', Stop]"
       and e = StartLive and A = exact]
  by (simp add: fixture_defs handler_defs)

text \<open>
  Claim C10. The guard of Start Live is \<^verbatim>\<open>!testId || live\<close>: the button is disabled
  exactly when \<open>testId\<close> is null, or is 0, or live mode is on, and that is what is
  rendered. While the test with identifier 0 is selected, pressing Start Live does
  nothing; and that test can be selected whenever it is in the list and live mode is
  off.
\<close>

theorem start_disabled_for_falsy_test:
  "start_disabled s = (testId s = None \<or> testId s = Some 0 \<or> live s)
   \<and> v_start_disabled (render A s) = start_disabled s
   \<and> (testId s = Some 0 \<longrightarrow> step s StartLive = s)
   \<and> (\<not> live s \<and> 0 \<in> set (map id_t (tests s)) \<longrightarrow>
        testId (step s (SelectTest 0)) = Some 0)"
  by (cases "testId s") (auto simp: handler_defs render_def)

theorem start_disabled_for_falsy_test_witness:
  "\<not> live (run init [TestsLoaded bench])
   \<and> 0 \<in> set (map id_t (tests (run init [TestsLoaded bench])))
   \<and> testId (run init [TestsLoaded bench, SelectTest 0]) = Some 0
   \<and> start_disabled (run init [TestsLoaded bench, SelectTest 0])
   \<and> step (run init [TestsLoaded bench, SelectTest 0]) StartLive
       = run init [TestsLoaded bench, SelectTest 0]
   \<and> \<not> live (run init [TestsLoaded bench, SelectTest 0, StartLive])"
  using start_disabled_for_falsy_test [where s = "run init [TestsLoaded bench]" and A = exact]
    start_disabled_for_falsy_test
      [where s = "run init [TestsLoaded bench, SelectTest 0]" and A = exact]
  by (simp add: fixture_defs handler_defs)

end
